theory Spec2Isabelle
  imports Complex_Main "HOL-Library.Multiset" "HOL-Library.Log_Nat"
begin

section \<open>Data model of api/index.py\<close>

text \<open>
  The telemetry file is JSON: a dictionary from region names to lists of records, each
  record a dictionary from field names to numbers. A record is modelled as a partial map
  from field names to the values of Python's numbers, so that a missing field is visible
  as Python's \<^verbatim>\<open>KeyError\<close>. A number read from JSON is a Python \<^verbatim>\<open>float\<close>, a
  float64 value, or an integer; the non-finite tokens that Python's JSON reader also
  accepts are not represented.
\<close>

type_synonym sample = "string \<rightharpoonup> real"

type_synonym dataset = "string \<rightharpoonup> sample list"

datatype error = KeyError string | EmptyArray | ValueError

text \<open>
  A float64 value: a finite number, one of the two infinities, or NaN. The finite values
  the operations below produce are the binary64 numbers. The sign of a zero is not
  represented.
\<close>

datatype f64 = Fin real | PInf | NInf | NaN

record MetricsRequest =
  regions :: "string list"
  threshold_ms :: real

record RegionMetrics =
  avg_latency :: f64
  p95_latency :: f64
  avg_uptime :: f64
  breaches :: int

section \<open>float64 arithmetic\<close>

text \<open>Rounding to the nearest integer, a tie going to the even one.\<close>

definition rint :: "real \<Rightarrow> int" where
  "rint x =
     (let f = \<lfloor>x\<rfloor>; d = x - of_int f
      in if d < 1 / 2 then f
         else if 1 / 2 < d then f + 1
         else if even f then f else f + 1)"

text \<open>
  The binade of \<open>x \<noteq> 0\<close> is the integer \<open>e\<close> with \<open>2\<^sup>e \<le> \<bar>x\<bar> < 2\<^sup>e\<^sup>+\<^sup>1\<close>. The binary64
  numbers of a binade are the multiples of its quantum \<open>2\<^sup>e\<^sup>-\<^sup>5\<^sup>2\<close> (53 significant bits);
  below \<open>2\<^sup>-\<^sup>1\<^sup>0\<^sup>2\<^sup>2\<close> the quantum stays \<open>2\<^sup>-\<^sup>1\<^sup>0\<^sup>7\<^sup>4\<close> (subnormal numbers). A real number is
  rounded to the nearest multiple of the quantum, a tie going to the even multiple, and
  a result of magnitude \<open>2\<^sup>1\<^sup>0\<^sup>2\<^sup>4\<close> or more is an infinity.
\<close>

definition binade :: "real \<Rightarrow> int" where
  "binade x =
     (if 1 \<le> \<bar>x\<bar> then bitlen \<lfloor>\<bar>x\<bar>\<rfloor> - 1 else - bitlen (\<lceil>1 / \<bar>x\<bar>\<rceil> - 1))"

definition quantum :: "real \<Rightarrow> real" where
  "quantum x = 2 powi (max (binade x) (- 1022) - 52)"

definition nearest :: "real \<Rightarrow> real" where
  "nearest x = of_int (rint (x / quantum x)) * quantum x"

definition f64_of_real :: "real \<Rightarrow> f64" where
  "f64_of_real x =
     (let r = nearest x
      in if 2 ^ 1024 \<le> r then PInf else if r \<le> - (2 ^ 1024) then NInf else Fin r)"

fun f64_neg :: "f64 \<Rightarrow> f64" where
  "f64_neg (Fin a) = Fin (- a)"
| "f64_neg PInf = NInf"
| "f64_neg NInf = PInf"
| "f64_neg NaN = NaN"

fun f64_add :: "f64 \<Rightarrow> f64 \<Rightarrow> f64" where
  "f64_add (Fin a) (Fin b) = f64_of_real (a + b)"
| "f64_add NaN _ = NaN"
| "f64_add _ NaN = NaN"
| "f64_add PInf NInf = NaN"
| "f64_add NInf PInf = NaN"
| "f64_add PInf _ = PInf"
| "f64_add _ PInf = PInf"
| "f64_add NInf _ = NInf"
| "f64_add _ NInf = NInf"

definition f64_sub :: "f64 \<Rightarrow> f64 \<Rightarrow> f64" where
  "f64_sub a b = f64_add a (f64_neg b)"

fun f64_mul :: "f64 \<Rightarrow> f64 \<Rightarrow> f64" where
  "f64_mul (Fin a) (Fin b) = f64_of_real (a * b)"
| "f64_mul NaN _ = NaN"
| "f64_mul _ NaN = NaN"
| "f64_mul (Fin a) PInf = (if a = 0 then NaN else if 0 < a then PInf else NInf)"
| "f64_mul (Fin a) NInf = (if a = 0 then NaN else if 0 < a then NInf else PInf)"
| "f64_mul PInf (Fin b) = (if b = 0 then NaN else if 0 < b then PInf else NInf)"
| "f64_mul NInf (Fin b) = (if b = 0 then NaN else if 0 < b then NInf else PInf)"
| "f64_mul PInf PInf = PInf"
| "f64_mul PInf NInf = NInf"
| "f64_mul NInf PInf = NInf"
| "f64_mul NInf NInf = PInf"

fun f64_div :: "f64 \<Rightarrow> f64 \<Rightarrow> f64" where
  "f64_div (Fin a) (Fin b) =
     (if b = 0 then (if a = 0 then NaN else if 0 < a then PInf else NInf)
      else f64_of_real (a / b))"
| "f64_div NaN _ = NaN"
| "f64_div _ NaN = NaN"
| "f64_div (Fin a) PInf = Fin 0"
| "f64_div (Fin a) NInf = Fin 0"
| "f64_div PInf (Fin b) = (if 0 \<le> b then PInf else NInf)"
| "f64_div NInf (Fin b) = (if 0 \<le> b then NInf else PInf)"
| "f64_div PInf PInf = NaN"
| "f64_div PInf NInf = NaN"
| "f64_div NInf PInf = NaN"
| "f64_div NInf NInf = NaN"

fun f64_rint :: "f64 \<Rightarrow> f64" where
  "f64_rint (Fin a) = Fin (of_int (rint a))"
| "f64_rint PInf = PInf"
| "f64_rint NInf = NInf"
| "f64_rint NaN = NaN"

text \<open>The order in which numpy sorts float64 values: NaN comes last.\<close>

fun f64_sort_le :: "f64 \<Rightarrow> f64 \<Rightarrow> bool" where
  "f64_sort_le (Fin a) (Fin b) = (a \<le> b)"
| "f64_sort_le _ NaN = True"
| "f64_sort_le NaN _ = False"
| "f64_sort_le NInf _ = True"
| "f64_sort_le _ NInf = False"
| "f64_sort_le _ PInf = True"
| "f64_sort_le PInf _ = False"

instantiation f64 :: zero
begin

definition zero_f64 :: f64 where
  "zero_f64 = Fin 0"

instance ..

end

instantiation f64 :: linorder
begin

definition less_eq_f64 :: "f64 \<Rightarrow> f64 \<Rightarrow> bool" where
  "less_eq_f64 a b \<longleftrightarrow> f64_sort_le a b"

definition less_f64 :: "f64 \<Rightarrow> f64 \<Rightarrow> bool" where
  "less_f64 a b \<longleftrightarrow> f64_sort_le a b \<and> \<not> f64_sort_le b a"

instance
proof
  fix x y z :: f64
  show "(x < y) = (x \<le> y \<and> \<not> y \<le> x)"
    by (simp add: less_f64_def less_eq_f64_def)
  show "x \<le> x"
    by (cases x) (simp_all add: less_eq_f64_def)
  show "x \<le> y \<Longrightarrow> y \<le> z \<Longrightarrow> x \<le> z"
    by (cases x; cases y; cases z) (simp_all add: less_eq_f64_def)
  show "x \<le> y \<Longrightarrow> y \<le> x \<Longrightarrow> x = y"
    by (cases x; cases y) (simp_all add: less_eq_f64_def)
  show "x \<le> y \<or> y \<le> x"
    by (cases x; cases y) (auto simp: less_eq_f64_def)
qed

end

text \<open>The comparison \<^verbatim>\<open>a >= b\<close> of two float64 values: false when either is NaN.\<close>

definition f64_ge :: "f64 \<Rightarrow> f64 \<Rightarrow> bool" where
  "f64_ge a b \<longleftrightarrow> a \<noteq> NaN \<and> b \<noteq> NaN \<and> b \<le> a"

section \<open>Library operations used by the code\<close>

text \<open>\<^verbatim>\<open>record[key]\<close>: subscription of a dictionary raises \<^verbatim>\<open>KeyError(key)\<close> when the
  key is missing.\<close>

definition getitem :: "sample \<Rightarrow> string \<Rightarrow> error + real" where
  "getitem r key = (case r key of None \<Rightarrow> Inl (KeyError key) | Some v \<Rightarrow> Inr v)"

text \<open>The list comprehension \<^verbatim>\<open>[record[key] for record in data]\<close>: records are read
  from left to right and the first missing key aborts the comprehension.\<close>

fun field_values :: "string \<Rightarrow> sample list \<Rightarrow> error + real list" where
  "field_values key [] = Inr []"
| "field_values key (r # rs) =
     (case getitem r key of
        Inl e \<Rightarrow> Inl e
      | Inr v \<Rightarrow> (case field_values key rs of Inl e \<Rightarrow> Inl e | Inr vs \<Rightarrow> Inr (v # vs)))"

text \<open>numpy turns the Python list into a float64 array: every number becomes the nearest
  float64 value.\<close>

definition np_asarray :: "real list \<Rightarrow> f64 list" where
  "np_asarray a = map f64_of_real a"

text \<open>
  The sum of a float64 array, as numpy's \<^verbatim>\<open>add.reduce\<close> computes it (pairwise
  summation): fewer than 8 elements are added from left to right; up to 128 elements
  are added in 8 interleaved accumulators, which are then combined in a fixed tree and
  followed by the remaining elements; a longer array is split near its middle, at a
  multiple of 8, and the sums of the two parts are added.
\<close>

function lanes_loop :: "f64 list \<Rightarrow> f64 list \<Rightarrow> f64 list" where
  "lanes_loop r xs =
     (if length xs < 8 then r
      else lanes_loop (map2 f64_add r (take 8 xs)) (drop 8 xs))"
  by pat_completeness auto
termination
  by (relation "measure (\<lambda>(r, xs). length xs)") auto

definition reduce8 :: "f64 list \<Rightarrow> f64" where
  "reduce8 r =
     f64_add (f64_add (f64_add (r ! 0) (r ! 1)) (f64_add (r ! 2) (r ! 3)))
             (f64_add (f64_add (r ! 4) (r ! 5)) (f64_add (r ! 6) (r ! 7)))"

function pairwise_sum :: "f64 list \<Rightarrow> f64" where
  "pairwise_sum a =
     (if length a < 8 then foldl f64_add (Fin 0) a
      else if length a \<le> 128 then
        foldl f64_add
          (reduce8 (lanes_loop (take 8 a)
             (take (length a - length a mod 8 - 8) (drop 8 a))))
          (drop (length a - length a mod 8) a)
      else
        f64_add (pairwise_sum (take (length a div 2 - length a div 2 mod 8) a))
                (pairwise_sum (drop (length a div 2 - length a div 2 mod 8) a)))"
  by pat_completeness auto
termination
  by (relation "measure length") auto

definition np_sum :: "f64 list \<Rightarrow> f64" where
  "np_sum a = f64_add (Fin 0) (pairwise_sum a)"

text \<open>\<^verbatim>\<open>np.mean\<close>: the float64 sum of the array divided by the number of its elements.
  On an empty array numpy has no mean to return (it warns and yields NaN); the model
  makes that case an error value.\<close>

definition array_mean :: "f64 list \<Rightarrow> f64" where
  "array_mean arr = f64_div (np_sum arr) (f64_of_real (of_nat (length arr)))"

definition np_mean :: "real list \<Rightarrow> error + f64" where
  "np_mean a = (if a = [] then Inl EmptyArray else Inr (array_mean (np_asarray a)))"

text \<open>numpy's \<^verbatim>\<open>_lerp\<close>: \<open>a + (b - a) * t\<close>, replaced by \<open>b - (b - a) * (1 - t)\<close> when
  \<open>t \<ge> 0.5\<close>, every operation in float64.\<close>

definition lerp :: "f64 \<Rightarrow> f64 \<Rightarrow> f64 \<Rightarrow> f64" where
  "lerp a b t =
     (let diff_b_a = f64_sub b a;
          lerp_interpolation = f64_add a (f64_mul diff_b_a t)
      in if f64_ge t (Fin (1 / 2))
         then f64_sub b (f64_mul diff_b_a (f64_sub (Fin 1) t))
         else lerp_interpolation)"

text \<open>
  \<^verbatim>\<open>np.percentile(a, q)\<close> with numpy's default method (linear). The quantile is
  \<open>q / 100\<close> and the virtual index \<open>(n - 1) * quantile\<close>, both in float64. The array is
  sorted; the result interpolates between the element at the floor of the virtual
  index and the next one, with the fractional part of the virtual index as weight. A
  virtual index that reaches \<open>n - 1\<close> selects the last element twice (index \<open>-1\<close>, which
  also enters the weight). A NaN in the array makes the result NaN. A \<open>q\<close> outside
  \<open>[0, 100]\<close> is a \<^verbatim>\<open>ValueError\<close>; an empty array has no percentile.
\<close>

definition np_percentile :: "real list \<Rightarrow> real \<Rightarrow> error + f64" where
  "np_percentile a q =
     (if q < 0 \<or> 100 < q then Inl ValueError
      else if a = [] then Inl EmptyArray
      else
        let arr = sort (np_asarray a);
            n = length arr;
            quantile = f64_div (f64_of_real q) (Fin 100);
            virtual_index = f64_mul (f64_of_real (of_nat (n - 1))) quantile
        in case virtual_index of
             Fin v \<Rightarrow>
               let above = (of_nat (n - 1) \<le> v);
                   previous_index = (if above then n - 1 else nat \<lfloor>v\<rfloor>);
                   next_index = (if above then n - 1 else nat \<lfloor>v\<rfloor> + 1);
                   gamma = f64_sub virtual_index
                             (if above then Fin (- 1) else Fin (of_int \<lfloor>v\<rfloor>))
               in if arr ! (n - 1) = NaN then Inr NaN
                  else Inr (lerp (arr ! previous_index) (arr ! next_index) gamma)
           | _ \<Rightarrow> Inr NaN)"

text \<open>\<^verbatim>\<open>round(x, ndigits)\<close> on a numpy float64: multiply by \<open>10 ^ ndigits\<close>, round to
  the nearest integer with a tie going to the even one, divide by \<open>10 ^ ndigits\<close>, every
  operation in float64.\<close>

definition round_float64 :: "f64 \<Rightarrow> nat \<Rightarrow> f64" where
  "round_float64 x ndigits =
     f64_div (f64_rint (f64_mul x (Fin (10 ^ ndigits)))) (Fin (10 ^ ndigits))"

section \<open>calculate_metrics\<close>

definition calculate_metrics :: "sample list \<Rightarrow> real \<Rightarrow> error + RegionMetrics" where
  "calculate_metrics data threshold =
     (if data = [] then
        Inr \<lparr>avg_latency = 0, p95_latency = 0, avg_uptime = 0, breaches = 0\<rparr>
      else
        case field_values ''latency_ms'' data of Inl e \<Rightarrow> Inl e | Inr latencies \<Rightarrow>
        case field_values ''uptime'' data of Inl e \<Rightarrow> Inl e | Inr uptimes \<Rightarrow>
        case np_mean latencies of Inl e \<Rightarrow> Inl e | Inr avg_lat \<Rightarrow>
        case np_percentile latencies 95 of Inl e \<Rightarrow> Inl e | Inr p95_lat \<Rightarrow>
        case np_mean uptimes of Inl e \<Rightarrow> Inl e | Inr avg_up \<Rightarrow>
        let breaches_count = (\<Sum>lat \<leftarrow> filter (\<lambda>lat. threshold < lat) latencies. (1::int))
        in Inr \<lparr>avg_latency = round_float64 avg_lat 2,
                p95_latency = round_float64 p95_lat 2,
                avg_uptime = round_float64 avg_up 2,
                breaches = breaches_count\<rparr>)"

section \<open>get_metrics\<close>

text \<open>The loop over the requested regions, with the dictionary \<^verbatim>\<open>results\<close> as its
  state; \<^verbatim>\<open>TELEMETRY_DATA\<close>, loaded once at start-up, is a parameter.\<close>

fun get_metrics_loop ::
  "dataset \<Rightarrow> real \<Rightarrow> string list \<Rightarrow> (string \<rightharpoonup> RegionMetrics) \<Rightarrow> error + (string \<rightharpoonup> RegionMetrics)"
where
  "get_metrics_loop telemetry threshold [] results = Inr results"
| "get_metrics_loop telemetry threshold (region # rest) results =
     (case telemetry region of
        Some samples \<Rightarrow>
          (case calculate_metrics samples threshold of
             Inl e \<Rightarrow> Inl e
           | Inr m \<Rightarrow> get_metrics_loop telemetry threshold rest (results(region \<mapsto> m)))
      | None \<Rightarrow>
          get_metrics_loop telemetry threshold rest
            (results(region \<mapsto>
               \<lparr>avg_latency = 0, p95_latency = 0, avg_uptime = 0, breaches = 0\<rparr>)))"

definition get_metrics :: "dataset \<Rightarrow> MetricsRequest \<Rightarrow> error + (string \<rightharpoonup> RegionMetrics)" where
  "get_metrics telemetry request =
     get_metrics_loop telemetry (threshold_ms request) (regions request) Map.empty"

section \<open>Notions of the specification\<close>

text \<open>A record is well formed when it has both fields the calculator reads.\<close>

definition well_formed :: "sample \<Rightarrow> bool" where
  "well_formed r \<longleftrightarrow> ''latency_ms'' \<in> dom r \<and> ''uptime'' \<in> dom r"

text \<open>The \<^verbatim>\<open>latency_ms\<close> values and the \<^verbatim>\<open>uptime\<close> values of a list of well-formed
  records, in the order of the records.\<close>

definition latencies_of :: "sample list \<Rightarrow> real list" where
  "latencies_of data = map (\<lambda>r. the (r ''latency_ms'')) data"

definition uptimes_of :: "sample list \<Rightarrow> real list" where
  "uptimes_of data = map (\<lambda>r. the (r ''uptime'')) data"



text \<open>The float64 value that Python's JSON reader gives a decimal literal within the
  float64 range: the nearest one.\<close>

definition json_float :: "real \<Rightarrow> real" where
  "json_float x = nearest x"

text \<open>The example of the specification: three samples \<open>{100, 0.99}\<close>, \<open>{150, 0.95}\<close>,
  \<open>{200, 0.90}\<close>.\<close>

definition example_samples :: "sample list" where
  "example_samples =
     [[''latency_ms'' \<mapsto> 100, ''uptime'' \<mapsto> 99 / 100],
      [''latency_ms'' \<mapsto> 150, ''uptime'' \<mapsto> 95 / 100],
      [''latency_ms'' \<mapsto> 200, ''uptime'' \<mapsto> 90 / 100]]"

section \<open>Reading the fields\<close>

lemma field_values_present:
  "\<forall>r \<in> set data. r key \<noteq> None \<Longrightarrow> field_values key data = Inr (map (\<lambda>r. the (r key)) data)"
  by (induction data) (auto simp: getitem_def)

lemma field_values_missing:
  "\<exists>r \<in> set data. r key = None \<Longrightarrow> field_values key data = Inl (KeyError key)"
proof (induction data)
  case Nil
  then show ?case by simp
next
  case (Cons r rs)
  show ?case
  proof (cases "r key")
    case None
    then show ?thesis by (simp add: getitem_def)
  next
    case (Some v)
    with Cons.prems have "\<exists>r \<in> set rs. r key = None" by auto
    then have "field_values key rs = Inl (KeyError key)" by (rule Cons.IH)
    with Some show ?thesis by (simp add: getitem_def)
  qed
qed

section \<open>The result on well-formed samples\<close>

lemma count_ones: "(\<Sum>x \<leftarrow> xs. (1::int)) = int (length xs)"
  by (simp add: sum_list_triv)

lemma np_percentile_95_returns:
  assumes "a \<noteq> []"
  shows "\<exists>p. np_percentile a 95 = Inr p"
  using assms by (simp add: np_percentile_def Let_def split: f64.splits)

lemma calculate_metrics_nonempty:
  assumes "data \<noteq> []" and "\<forall>r \<in> set data. well_formed r"
  shows "\<exists>m. calculate_metrics data threshold = Inr m
     \<and> avg_latency m = round_float64 (array_mean (np_asarray (latencies_of data))) 2
     \<and> (\<exists>p. np_percentile (latencies_of data) 95 = Inr p \<and> p95_latency m = round_float64 p 2)
     \<and> avg_uptime m = round_float64 (array_mean (np_asarray (uptimes_of data))) 2
     \<and> breaches m = int (length (filter (\<lambda>lat. threshold < lat) (latencies_of data)))"
proof -
  from assms(2) have lat: "field_values ''latency_ms'' data = Inr (latencies_of data)"
    unfolding latencies_of_def by (intro field_values_present) (auto simp: well_formed_def)
  from assms(2) have up: "field_values ''uptime'' data = Inr (uptimes_of data)"
    unfolding uptimes_of_def by (intro field_values_present) (auto simp: well_formed_def)
  from assms(1) have ne: "latencies_of data \<noteq> []" "uptimes_of data \<noteq> []"
    by (simp_all add: latencies_of_def uptimes_of_def)
  obtain p where p: "np_percentile (latencies_of data) 95 = Inr p"
    using np_percentile_95_returns [OF ne(1)] by blast
  show ?thesis
    using assms(1) ne by (simp add: calculate_metrics_def lat up p count_ones np_mean_def)
qed

section \<open>The empty sample list\<close>

text \<open>
  C4. For every threshold, an empty list of samples gives the metrics with all four
  fields zero, returned as a result and not as an error.
\<close>

theorem calculate_metrics_empty:
  "calculate_metrics [] threshold =
     Inr \<lparr>avg_latency = 0, p95_latency = 0, avg_uptime = 0, breaches = 0\<rparr>"
  by (simp add: calculate_metrics_def)

section \<open>The breach count\<close>

lemma calculate_metrics_breaches:
  assumes "\<forall>r \<in> set data. well_formed r"
  shows "\<exists>m. calculate_metrics data threshold = Inr m
    \<and> breaches m = int (length (filter (\<lambda>r. threshold < the (r ''latency_ms'')) data))"
proof (cases "data = []")
  case True
  then show ?thesis by (simp add: calculate_metrics_def)
next
  case False
  from calculate_metrics_nonempty [OF False assms, of threshold]
  obtain m where m: "calculate_metrics data threshold = Inr m"
    and b: "breaches m = int (length (filter (\<lambda>lat. threshold < lat) (latencies_of data)))"
    by blast
  have "filter (\<lambda>lat. threshold < lat) (latencies_of data)
      = map (\<lambda>r. the (r ''latency_ms'')) (filter (\<lambda>r. threshold < the (r ''latency_ms'')) data)"
    by (simp add: latencies_of_def filter_map comp_def)
  with m b show ?thesis by simp
qed

section \<open>Totality\<close>

text \<open>
  C10. On every list of well-formed samples and every threshold, \<open>calculate_metrics\<close>
  returns a result and no error: the empty list is answered before any mean or percentile
  is taken, so neither is ever applied to an empty list, and no field is missing.
\<close>

theorem calculate_metrics_total:
  assumes "\<forall>r \<in> set data. well_formed r"
  shows "\<exists>m. calculate_metrics data threshold = Inr m"
  using calculate_metrics_breaches [OF assms, of threshold] by blast

theorem calculate_metrics_total_witness:
  "list_all well_formed [] \<and> (\<exists>m. calculate_metrics [] 180 = Inr m)
   \<and> list_all well_formed example_samples \<and> (\<exists>m. calculate_metrics example_samples 180 = Inr m)"
proof -
  have h0: "\<forall>r \<in> set ([] :: sample list). well_formed r" by simp
  have h1: "\<forall>r \<in> set example_samples. well_formed r"
    by (simp add: example_samples_def well_formed_def)
  from h0 h1 calculate_metrics_total [OF h0, of 180] calculate_metrics_total [OF h1, of 180]
  show ?thesis
    unfolding list_all_iff by (intro conjI)
qed

text \<open>
  C3. For every list of well-formed samples, empty or not, and every threshold, positive,
  zero or negative, \<open>breaches\<close> is the number of samples whose \<open>latency_ms\<close> is strictly
  greater than the threshold; a sample whose latency equals the threshold is not counted.
\<close>

theorem breaches_counts_strict_exceedances:
  assumes "\<forall>r \<in> set data. well_formed r"
  shows "\<exists>m. calculate_metrics data threshold = Inr m
    \<and> breaches m = int (length (filter (\<lambda>r. threshold < the (r ''latency_ms'')) data))"
  using assms by (rule calculate_metrics_breaches)

theorem breaches_counts_strict_exceedances_witness:
  "list_all well_formed example_samples
   \<and> length (filter (\<lambda>r. 150 < the (r ''latency_ms'')) example_samples) = 1
   \<and> (\<exists>m. calculate_metrics example_samples 150 = Inr m \<and> breaches m = 1)
   \<and> length (filter (\<lambda>r. - 5 < the (r ''latency_ms'')) example_samples) = 3
   \<and> (\<exists>m. calculate_metrics example_samples (- 5) = Inr m \<and> breaches m = 3)"
proof -
  have h: "\<forall>r \<in> set example_samples. well_formed r"
    by (simp add: example_samples_def well_formed_def)
  have c1: "length (filter (\<lambda>r. 150 < the (r ''latency_ms'')) example_samples) = 1"
    by (simp add: example_samples_def)
  have c2: "length (filter (\<lambda>r. - 5 < the (r ''latency_ms'')) example_samples) = 3"
    by (simp add: example_samples_def)
  from breaches_counts_strict_exceedances [OF h, of 150] c1
  have r1: "\<exists>m. calculate_metrics example_samples 150 = Inr m \<and> breaches m = 1"
    by simp
  from breaches_counts_strict_exceedances [OF h, of "- 5"] c2
  have r2: "\<exists>m. calculate_metrics example_samples (- 5) = Inr m \<and> breaches m = 3"
    by simp
  from h c1 c2 r1 r2 show ?thesis
    unfolding list_all_iff by (intro conjI)
qed

text \<open>
  C8. For a fixed list of well-formed samples, raising the threshold never raises
  \<open>breaches\<close>.
\<close>

theorem breaches_antimono:
  assumes "\<forall>r \<in> set data. well_formed r" and "t1 \<le> t2"
  shows "\<exists>m1 m2. calculate_metrics data t1 = Inr m1 \<and> calculate_metrics data t2 = Inr m2
    \<and> breaches m2 \<le> breaches m1"
proof -
  from calculate_metrics_breaches [OF assms(1), of t1]
  obtain m1 where m1: "calculate_metrics data t1 = Inr m1"
    and b1: "breaches m1 = int (length (filter (\<lambda>r. t1 < the (r ''latency_ms'')) data))"
    by blast
  from calculate_metrics_breaches [OF assms(1), of t2]
  obtain m2 where m2: "calculate_metrics data t2 = Inr m2"
    and b2: "breaches m2 = int (length (filter (\<lambda>r. t2 < the (r ''latency_ms'')) data))"
    by blast
  have "filter (\<lambda>r. t2 < the (r ''latency_ms'')) data
      = filter (\<lambda>r. t2 < the (r ''latency_ms'')) (filter (\<lambda>r. t1 < the (r ''latency_ms'')) data)"
    using assms(2) by (auto intro!: filter_cong)
  then have "length (filter (\<lambda>r. t2 < the (r ''latency_ms'')) data)
      \<le> length (filter (\<lambda>r. t1 < the (r ''latency_ms'')) data)"
    by (metis length_filter_le)
  with m1 m2 b1 b2 show ?thesis by auto
qed

theorem breaches_antimono_witness:
  "list_all well_formed example_samples \<and> (140::real) \<le> 150
   \<and> (\<exists>m1 m2. calculate_metrics example_samples 140 = Inr m1
         \<and> calculate_metrics example_samples 150 = Inr m2 \<and> breaches m2 \<le> breaches m1)"
proof -
  have h: "\<forall>r \<in> set example_samples. well_formed r"
    by (simp add: example_samples_def well_formed_def)
  have le: "(140::real) \<le> 150" by simp
  from h le breaches_antimono [OF h le] show ?thesis
    unfolding list_all_iff by (intro conjI)
qed

section \<open>The dispatch over regions\<close>

lemma calculate_metrics_Nil:
  "calculate_metrics [] threshold =
     Inr \<lparr>avg_latency = 0, p95_latency = 0, avg_uptime = 0, breaches = 0\<rparr>"
  unfolding calculate_metrics_def by simp

lemma get_metrics_loop_result:
  assumes "\<forall>samples \<in> ran telemetry. \<forall>r \<in> set samples. well_formed r"
  shows "\<exists>results'. get_metrics_loop telemetry threshold rs results = Inr results'
    \<and> (\<forall>region. region \<notin> set rs \<longrightarrow> results' region = results region)
    \<and> (\<forall>region \<in> set rs. \<exists>m. results' region = Some m
          \<and> Inr m = (case telemetry region of
                        Some samples \<Rightarrow> calculate_metrics samples threshold
                      | None \<Rightarrow> calculate_metrics [] threshold))"
proof (induction rs arbitrary: results)
  case Nil
  show ?case by simp
next
  case (Cons region rest)
  obtain m where m: "Inr m = (case telemetry region of
                        Some samples \<Rightarrow> calculate_metrics samples threshold
                      | None \<Rightarrow> calculate_metrics [] threshold)"
  proof (cases "telemetry region")
    case None
    then show ?thesis using that by (simp add: calculate_metrics_Nil)
  next
    case (Some samples)
    then have "samples \<in> ran telemetry" by (auto simp: ran_def)
    with assms have "\<forall>r \<in> set samples. well_formed r" by blast
    from calculate_metrics_breaches [OF this, of threshold] Some that
    show ?thesis by auto
  qed
  have step: "get_metrics_loop telemetry threshold (region # rest) results
      = get_metrics_loop telemetry threshold rest (results(region \<mapsto> m))"
    using m by (cases "telemetry region") (simp_all add: calculate_metrics_Nil, metis old.sum.simps(6))
  from Cons.IH [of "results(region \<mapsto> m)"]
  obtain results' where r: "get_metrics_loop telemetry threshold rest (results(region \<mapsto> m)) = Inr results'"
    and keep: "\<forall>x. x \<notin> set rest \<longrightarrow> results' x = (results(region \<mapsto> m)) x"
    and new: "\<forall>x \<in> set rest. \<exists>m. results' x = Some m
          \<and> Inr m = (case telemetry x of
                        Some samples \<Rightarrow> calculate_metrics samples threshold
                      | None \<Rightarrow> calculate_metrics [] threshold)"
    by blast
  show ?case
  proof (intro exI [of _ results'] conjI allI impI ballI)
    show "get_metrics_loop telemetry threshold (region # rest) results = Inr results'"
      using step r by simp
  next
    fix x assume "x \<notin> set (region # rest)"
    then show "results' x = results x" using keep by simp
  next
    fix x assume x: "x \<in> set (region # rest)"
    show "\<exists>m. results' x = Some m
          \<and> Inr m = (case telemetry x of
                        Some samples \<Rightarrow> calculate_metrics samples threshold
                      | None \<Rightarrow> calculate_metrics [] threshold)"
    proof (cases "x \<in> set rest")
      case True
      then show ?thesis using new by blast
    next
      case False
      with x have "x = region" by simp
      moreover from False keep have "results' x = (results(region \<mapsto> m)) x" by blast
      ultimately show ?thesis using m by auto
    qed
  qed
qed

text \<open>
  C5. For every dataset of well-formed samples, every requested region and every
  threshold, \<open>get_metrics\<close> returns a mapping that gives the region the result of
  \<open>calculate_metrics\<close> on the region's samples when the dataset has the region, and
  otherwise the all-zero metrics, which is also the result for an empty list of samples.
\<close>

theorem get_metrics_dispatch:
  assumes "\<forall>samples \<in> ran telemetry. \<forall>r \<in> set samples. well_formed r"
    and "region \<in> set (regions request)"
  shows "\<exists>results m. get_metrics telemetry request = Inr results \<and> results region = Some m
    \<and> (case telemetry region of
          Some samples \<Rightarrow> calculate_metrics samples (threshold_ms request) = Inr m
        | None \<Rightarrow>
            m = \<lparr>avg_latency = 0, p95_latency = 0, avg_uptime = 0, breaches = 0\<rparr>
            \<and> calculate_metrics [] (threshold_ms request) = Inr m)"
proof -
  from get_metrics_loop_result [OF assms(1), of "threshold_ms request" "regions request" Map.empty]
  obtain results where r: "get_metrics telemetry request = Inr results"
    and new: "\<forall>x \<in> set (regions request). \<exists>m. results x = Some m
          \<and> Inr m = (case telemetry x of
                        Some samples \<Rightarrow> calculate_metrics samples (threshold_ms request)
                      | None \<Rightarrow> calculate_metrics [] (threshold_ms request))"
    unfolding get_metrics_def by blast
  from new assms(2) obtain m where m: "results region = Some m"
    and v: "Inr m = (case telemetry region of
                        Some samples \<Rightarrow> calculate_metrics samples (threshold_ms request)
                      | None \<Rightarrow> calculate_metrics [] (threshold_ms request))"
    by blast
  have "case telemetry region of
          Some samples \<Rightarrow> calculate_metrics samples (threshold_ms request) = Inr m
        | None \<Rightarrow>
            m = \<lparr>avg_latency = 0, p95_latency = 0, avg_uptime = 0, breaches = 0\<rparr>
            \<and> calculate_metrics [] (threshold_ms request) = Inr m"
    using v by (cases "telemetry region") (auto simp: calculate_metrics_Nil)
  with r m show ?thesis by blast
qed

theorem get_metrics_dispatch_witness:
  "list_all (list_all well_formed) [example_samples]
   \<and> ''emea'' \<in> set [''emea'', ''apac'']
   \<and> ''apac'' \<in> set [''emea'', ''apac'']
   \<and> (\<exists>results m. get_metrics [''emea'' \<mapsto> example_samples]
          \<lparr>regions = [''emea'', ''apac''], threshold_ms = 140\<rparr> = Inr results
        \<and> results ''emea'' = Some m
        \<and> calculate_metrics example_samples 140 = Inr m)
   \<and> (\<exists>results m. get_metrics [''emea'' \<mapsto> example_samples]
          \<lparr>regions = [''emea'', ''apac''], threshold_ms = 140\<rparr> = Inr results
        \<and> results ''apac'' = Some m
        \<and> m = \<lparr>avg_latency = 0, p95_latency = 0, avg_uptime = 0, breaches = 0\<rparr>
        \<and> calculate_metrics [] 140 = Inr m)"
proof -
  let ?t = "[''emea'' \<mapsto> example_samples]"
  let ?q = "\<lparr>regions = [''emea'', ''apac''], threshold_ms = 140\<rparr>"
  have wf: "\<forall>r \<in> set example_samples. well_formed r"
    by (simp add: example_samples_def well_formed_def)
  then have h1: "\<forall>samples \<in> ran ?t. \<forall>r \<in> set samples. well_formed r"
    by simp
  have h2: "''emea'' \<in> set (regions ?q)" by simp
  have h3: "''apac'' \<in> set (regions ?q)" by simp
  have a: "\<exists>results m. get_metrics ?t ?q = Inr results \<and> results ''emea'' = Some m
        \<and> calculate_metrics example_samples 140 = Inr m"
    using get_metrics_dispatch [OF h1 h2] by simp
  have b: "\<exists>results m. get_metrics ?t ?q = Inr results \<and> results ''apac'' = Some m
        \<and> m = \<lparr>avg_latency = 0, p95_latency = 0, avg_uptime = 0, breaches = 0\<rparr>
        \<and> calculate_metrics [] 140 = Inr m"
    using get_metrics_dispatch [OF h1 h3] by simp
  from wf a b show ?thesis
    by (simp add: list_all_iff)
qed

section \<open>Rounding to float64\<close>

lemma binade_bounds:
  assumes "x \<noteq> 0"
  shows "2 powi binade x \<le> \<bar>x\<bar>" and "\<bar>x\<bar> < 2 powi (binade x + 1)"
proof -
  have "2 powi binade x \<le> \<bar>x\<bar> \<and> \<bar>x\<bar> < 2 powi (binade x + 1)"
  proof (cases "1 \<le> \<bar>x\<bar>")
    case True
    define m where "m = \<lfloor>\<bar>x\<bar>\<rfloor>"
    from True have mpos: "0 < m" by (simp add: m_def)
    from bitlen_bounds [OF mpos]
    have lo: "2 ^ nat (bitlen m - 1) \<le> m" and hi: "m < 2 ^ nat (bitlen m)" by simp_all
    from mpos have b1: "1 \<le> bitlen m" by (simp add: bitlen_alt_def)
    have bin: "binade x = bitlen m - 1"
      using True by (simp add: binade_def m_def)
    have "(2::real) powi (bitlen m - 1) = 2 ^ nat (bitlen m - 1)"
      using b1 by (simp add: power_int_def)
    also have "\<dots> = of_int (2 ^ nat (bitlen m - 1))" by simp
    also have "\<dots> \<le> of_int m" using lo by (simp only: of_int_le_iff)
    also have "\<dots> \<le> \<bar>x\<bar>" by (simp add: m_def)
    finally have A: "2 powi binade x \<le> \<bar>x\<bar>" by (simp add: bin)
    from hi have "m + 1 \<le> 2 ^ nat (bitlen m)" by simp
    then have "of_int (m + 1) \<le> (of_int (2 ^ nat (bitlen m)) :: real)"
      by (simp only: of_int_le_iff)
    moreover have "\<bar>x\<bar> < of_int (m + 1)" by (simp add: m_def)
    ultimately have "\<bar>x\<bar> < 2 ^ nat (bitlen m)" by simp
    also have "\<dots> = 2 powi (bitlen m)"
      using b1 by (simp add: power_int_def)
    finally have B: "\<bar>x\<bar> < 2 powi (binade x + 1)" by (simp add: bin)
    from A B show ?thesis ..
  next
    case False
    define y where "y = 1 / \<bar>x\<bar>"
    define M where "M = \<lceil>y\<rceil>"
    from False assms have y1: "1 < y" by (simp add: y_def)
    then have M2: "2 \<le> M" unfolding M_def by linarith
    then have pos: "0 < M - 1" by simp
    define b where "b = bitlen (M - 1)"
    from bitlen_bounds [OF pos]
    have lo: "2 ^ nat (b - 1) \<le> M - 1" and hi: "M - 1 < 2 ^ nat b" by (simp_all add: b_def)
    from pos have b1: "1 \<le> b" by (simp add: bitlen_alt_def b_def)
    have bin: "binade x = - b"
      using False by (simp add: binade_def b_def M_def y_def)
    have xy: "\<bar>x\<bar> = 1 / y" by (simp add: y_def)
    have ypos: "0 < y" using y1 by simp
    from hi have Mle: "M \<le> 2 ^ nat b" by simp
    have "y \<le> of_int M" by (simp add: M_def)
    also have "\<dots> \<le> of_int (2 ^ nat b)" using Mle by (simp only: of_int_le_iff)
    also have "\<dots> = 2 ^ nat b" by simp
    finally have "y \<le> 2 ^ nat b" .
    then have "1 / 2 ^ nat b \<le> 1 / y"
      using ypos by (simp add: frac_le)
    moreover have "(2::real) powi (- b) = 1 / 2 ^ nat b"
      using b1 by (simp add: power_int_def field_simps)
    ultimately have A: "2 powi binade x \<le> \<bar>x\<bar>" by (simp add: bin xy)
    have "(2::real) ^ nat (b - 1) = of_int (2 ^ nat (b - 1))" by simp
    also have "\<dots> \<le> of_int (M - 1)" using lo by (simp only: of_int_le_iff)
    also have "\<dots> < y" unfolding M_def by linarith
    finally have "2 ^ nat (b - 1) < y" .
    then have "1 / y < 1 / 2 ^ nat (b - 1)"
      by (simp add: frac_less2)
    moreover have "(2::real) powi (- b + 1) = 1 / 2 ^ nat (b - 1)"
    proof -
      have "- b + 1 = - (b - 1)" by simp
      then have "(2::real) powi (- b + 1) = 2 powi (- (b - 1))" by simp
      also have "\<dots> = 1 / 2 ^ nat (b - 1)"
        using b1 by (simp add: power_int_def field_simps del: minus_diff_eq)
      finally show ?thesis .
    qed
    ultimately have B: "\<bar>x\<bar> < 2 powi (binade x + 1)" by (simp add: bin xy)
    from A B show ?thesis ..
  qed
  then show "2 powi binade x \<le> \<bar>x\<bar>" and "\<bar>x\<bar> < 2 powi (binade x + 1)" by simp_all
qed

lemma binade_eqI:
  assumes "2 powi e \<le> \<bar>x\<bar>" and "\<bar>x\<bar> < 2 powi (e + 1)"
  shows "binade x = e"
proof -
  have "(0::real) < 2 powi e" by simp
  with assms(1) have "0 < \<bar>x\<bar>" by linarith
  then have nz: "x \<noteq> 0" by simp
  from binade_bounds [OF nz] have b1: "2 powi binade x \<le> \<bar>x\<bar>" and b2: "\<bar>x\<bar> < 2 powi (binade x + 1)" .
  from assms(1) b2 have l1: "(2::real) powi e < 2 powi (binade x + 1)" by linarith
  have "e < binade x + 1"
  proof (rule ccontr)
    assume "\<not> e < binade x + 1"
    then have "(2::real) powi (binade x + 1) \<le> 2 powi e"
      by (intro power_int_increasing) simp_all
    with l1 show False by simp
  qed
  moreover from b1 assms(2) have l2: "(2::real) powi binade x < 2 powi (e + 1)" by linarith
  have "binade x < e + 1"
  proof (rule ccontr)
    assume "\<not> binade x < e + 1"
    then have "(2::real) powi (e + 1) \<le> 2 powi binade x"
      by (intro power_int_increasing) simp_all
    with l2 show False by simp
  qed
  ultimately show ?thesis by simp
qed

lemma nearest_0 [simp]: "nearest 0 = 0"
  by (simp add: nearest_def rint_def)

lemma f64_of_real_0 [simp]: "f64_of_real 0 = Fin 0"
  by (simp add: f64_of_real_def)

lemma f64_of_real_eqI:
  assumes "2 powi e \<le> \<bar>x\<bar>" and "\<bar>x\<bar> < 2 powi (e + 1)" and "- 1022 \<le> e"
    and "rint (x / 2 powi (e - 52)) = k" and "r = of_int k * 2 powi (e - 52)"
    and "\<bar>r\<bar> < 2 ^ 1024"
  shows "f64_of_real x = Fin r"
proof -
  have "binade x = e" using assms(1,2) by (rule binade_eqI)
  then have "quantum x = 2 powi (e - 52)"
    using assms(3) by (simp add: quantum_def max_def)
  then have "nearest x = r"
    using assms(4,5) by (simp add: nearest_def)
  then show ?thesis
    using assms(6) by (simp add: f64_of_real_def abs_less_iff Let_def)
qed

lemma nearest_eqI:
  assumes "2 powi e \<le> \<bar>x\<bar>" and "\<bar>x\<bar> < 2 powi (e + 1)" and "- 1022 \<le> e"
    and "rint (x / 2 powi (e - 52)) = k" and "r = of_int k * 2 powi (e - 52)"
  shows "nearest x = r"
proof -
  have "binade x = e" using assms(1,2) by (rule binade_eqI)
  then have "quantum x = 2 powi (e - 52)"
    using assms(3) by (simp add: quantum_def max_def)
  then show ?thesis
    using assms(4,5) by (simp add: nearest_def)
qed

lemma rint_lower: "x - 1 / 2 \<le> of_int (rint x)"
  unfolding rint_def Let_def by (auto; linarith)

lemma rint_upper: "of_int (rint x) \<le> x + 1 / 2"
  unfolding rint_def Let_def by (auto; linarith)

lemma rint_of_int [simp]: "rint (of_int k) = k"
  by (simp add: rint_def)

lemma rint_ge_floor: "\<lfloor>x\<rfloor> \<le> rint x"
  by (simp add: rint_def Let_def)

lemma rint_le_floor_Suc: "rint x \<le> \<lfloor>x\<rfloor> + 1"
  by (simp add: rint_def Let_def)

lemma rint_mono:
  assumes "x \<le> y"
  shows "rint x \<le> rint y"
proof (cases "\<lfloor>x\<rfloor> = \<lfloor>y\<rfloor>")
  case True
  with assms have "x - of_int \<lfloor>x\<rfloor> \<le> y - of_int \<lfloor>y\<rfloor>" by simp
  with True show ?thesis
    by (auto simp: rint_def Let_def)
next
  case False
  with assms have "\<lfloor>x\<rfloor> + 1 \<le> \<lfloor>y\<rfloor>"
    using floor_mono [of x y] by linarith
  then show ?thesis
    using rint_le_floor_Suc [of x] rint_ge_floor [of y] by linarith
qed

lemma rint_minus: "rint (- x) = - rint x"
proof -
  have "\<bar>of_int (rint (- x)) + x\<bar> \<le> 1 / 2"
    using rint_lower [of "- x"] rint_upper [of "- x"] by linarith
  show ?thesis
  proof (cases "x = of_int \<lfloor>x\<rfloor>")
    case True
    then obtain k where "x = of_int k" ..
    then show ?thesis by (simp flip: of_int_minus)
  next
    case False
    then have c: "\<lceil>x\<rceil> = \<lfloor>x\<rfloor> + 1" by (simp add: ceiling_altdef)
    have f: "\<lfloor>- x\<rfloor> = - \<lfloor>x\<rfloor> - 1"
      using c by (simp add: ceiling_def)
    have lt: "of_int \<lfloor>x\<rfloor> < x" using False by linarith
    show ?thesis
      unfolding rint_def Let_def f
      using lt by (auto simp: field_simps) 
  qed
qed

lemma quantum_pos [simp]: "0 < quantum x"
  by (simp add: quantum_def)

lemma quantum_nonneg [simp]: "0 \<le> quantum x"
  by (simp add: quantum_def)

lemma quantum_nz [simp]: "quantum x \<noteq> 0"
  by (simp add: quantum_def)

lemma binade_minus [simp]: "binade (- x) = binade x"
  by (simp add: binade_def)

lemma quantum_minus [simp]: "quantum (- x) = quantum x"
  by (simp add: quantum_def)

lemma nearest_minus: "nearest (- x) = - nearest x"
  by (simp add: nearest_def rint_minus)

lemma nearest_nonneg: "0 \<le> x \<Longrightarrow> 0 \<le> nearest x"
proof -
  assume "0 \<le> x"
  then have "0 \<le> x / quantum x" by simp
  then have "rint 0 \<le> rint (x / quantum x)" by (rule rint_mono)
  then show ?thesis by (simp add: nearest_def rint_def)
qed

lemma nearest_le_grid:
  assumes "x \<le> of_int j * quantum x"
  shows "nearest x \<le> of_int j * quantum x"
proof -
  from assms have "x / quantum x \<le> of_int j"
    by (simp add: pos_divide_le_eq)
  then have "rint (x / quantum x) \<le> rint (of_int j)" by (rule rint_mono)
  then have "rint (x / quantum x) \<le> j" by simp
  then have "(of_int (rint (x / quantum x)) :: real) \<le> of_int j" by (simp only: of_int_le_iff)
  then show ?thesis
    by (simp add: nearest_def mult_right_mono)
qed

lemma nearest_ge_grid:
  assumes "of_int j * quantum x \<le> x"
  shows "of_int j * quantum x \<le> nearest x"
proof -
  from assms have "of_int j \<le> x / quantum x"
    by (simp add: pos_le_divide_eq)
  then have "rint (of_int j) \<le> rint (x / quantum x)" by (rule rint_mono)
  then have "j \<le> rint (x / quantum x)" by simp
  then have "(of_int j :: real) \<le> of_int (rint (x / quantum x))" by (simp only: of_int_le_iff)
  then show ?thesis
    by (simp add: nearest_def mult_right_mono)
qed

lemma binade_mono:
  assumes "0 < x" and "x \<le> y"
  shows "binade x \<le> binade y"
proof -
  from assms have nz: "x \<noteq> 0" "y \<noteq> 0" by auto
  from binade_bounds(1) [OF nz(1)] binade_bounds(2) [OF nz(2)] assms
  have l: "(2::real) powi binade x < 2 powi (binade y + 1)" by simp
  have "binade x < binade y + 1"
  proof (rule ccontr)
    assume "\<not> binade x < binade y + 1"
    then have "(2::real) powi (binade y + 1) \<le> 2 powi binade x"
      by (intro power_int_increasing) simp_all
    with l show False by simp
  qed
  then show ?thesis by simp
qed

lemma powi_2_of_int:
  "0 \<le> n \<Longrightarrow> (2::real) powi n = of_int (2 ^ nat n)"
  by (simp add: power_int_def)

lemma nearest_mono_pos:
  assumes "0 < x" and "x \<le> y"
  shows "nearest x \<le> nearest y"
proof -
  define Ex where "Ex = max (binade x) (- 1022)"
  define Ey where "Ey = max (binade y) (- 1022)"
  have qx: "quantum x = 2 powi (Ex - 52)" by (simp add: quantum_def Ex_def)
  have qy: "quantum y = 2 powi (Ey - 52)" by (simp add: quantum_def Ey_def)
  from binade_mono [OF assms] have le: "Ex \<le> Ey" by (simp add: Ex_def Ey_def)
  show ?thesis
  proof (cases "Ex = Ey")
    case True
    then have "quantum x = quantum y" by (simp add: qx qy)
    moreover have "x / quantum y \<le> y / quantum y"
      using assms(2) by (simp add: divide_right_mono)
    ultimately show ?thesis
      by (simp add: nearest_def rint_mono mult_right_mono)
  next
    case False
    with le have lt: "Ex < Ey" by simp
    then have Eyb: "Ey = binade y" by (simp add: Ex_def Ey_def max_def split: if_splits)
    from assms have nz: "x \<noteq> 0" "y \<noteq> 0" by auto
    define B :: real where "B = 2 powi Ey"
    have By: "B \<le> y"
      using binade_bounds(1) [OF nz(2)] assms by (simp add: B_def Eyb)
    have "binade x + 1 \<le> Ey" using lt by (simp add: Ex_def)
    then have "(2::real) powi (binade x + 1) \<le> 2 powi Ey"
      by (intro power_int_increasing) simp_all
    with binade_bounds(2) [OF nz(1)] assms have xB: "x \<le> B" by (simp add: B_def)
    have "B = 2 powi (Ey - Ex + 52) * quantum x"
      by (simp add: B_def qx flip: power_int_add)
    also have "(2::real) powi (Ey - Ex + 52) = of_int (2 ^ nat (Ey - Ex + 52))"
      using lt by (intro powi_2_of_int) simp
    finally have Bx: "B = of_int (2 ^ nat (Ey - Ex + 52)) * quantum x" .
    have "B = 2 powi 52 * quantum y"
      by (simp add: B_def qy power_int_diff)
    also have "(2::real) powi 52 = of_int (2 ^ 52)" by simp
    finally have Byq: "B = of_int (2 ^ 52) * quantum y" .
    have "nearest x \<le> B"
      using xB unfolding Bx by (rule nearest_le_grid)
    moreover have "B \<le> nearest y"
      using By unfolding Byq by (rule nearest_ge_grid)
    ultimately show ?thesis by simp
  qed
qed

lemma nearest_mono:
  assumes "x \<le> y"
  shows "nearest x \<le> nearest y"
proof -
  consider "0 < x" | "x \<le> 0" "0 \<le> y" | "y < 0" by linarith
  then show ?thesis
  proof cases
    case 1
    then show ?thesis using assms by (rule nearest_mono_pos)
  next
    case 2
    from 2(1) have "0 \<le> nearest (- x)" by (intro nearest_nonneg) simp
    then have "nearest x \<le> 0" by (simp add: nearest_minus)
    also have "0 \<le> nearest y" using 2(2) by (rule nearest_nonneg)
    finally show ?thesis .
  next
    case 3
    then have "0 < - y" "- y \<le> - x" using assms by simp_all
    then have "nearest (- y) \<le> nearest (- x)" by (rule nearest_mono_pos)
    then show ?thesis by (simp add: nearest_minus)
  qed
qed









lemma pairwise_sum_short:
  "length a < 8 \<Longrightarrow> pairwise_sum a = foldl f64_add (Fin 0) a"
  by (subst pairwise_sum.simps) simp

section \<open>The averages\<close>





section \<open>The 95th percentile\<close>







section \<open>Independence of the order of the samples\<close>

lemma order_example_forward:
  "calculate_metrics
     [[''latency_ms'' \<mapsto> 100, ''uptime'' \<mapsto> 1],
      [''latency_ms'' \<mapsto> json_float (1002 / 10), ''uptime'' \<mapsto> 1],
      [''latency_ms'' \<mapsto> json_float (1002 / 10), ''uptime'' \<mapsto> 1],
      [''latency_ms'' \<mapsto> json_float (1999 / 10), ''uptime'' \<mapsto> 1]] 180
   = Inr \<lparr>avg_latency = Fin (2200254708575109 / 17592186044416), p95_latency = Fin (3253498887054295 / 17592186044416), avg_uptime = Fin 1, breaches = 1\<rparr>"
proof -
  have j1: "json_float (1002 / 10) = 7050948166601933 / 70368744177664"
    unfolding json_float_def
    by (rule nearest_eqI [where e = "6" and k = "7050948166601933"])
       (simp_all add: rint_def Let_def power_int_minus)
  have j2: "json_float (1999 / 10) = 7033355980557517 / 35184372088832"
    unfolding json_float_def
    by (rule nearest_eqI [where e = "7" and k = "7033355980557517"])
       (simp_all add: rint_def Let_def power_int_minus)
  have a1: "f64_of_real 100 = Fin 100"
    by (simp add: f64_of_real_eqI [where e = "6" and k = "7036874417766400" and r = "100"]
        rint_def Let_def power_int_minus f64_sub_def)
  have a2: "f64_of_real (7050948166601933 / 70368744177664) = Fin (7050948166601933 / 70368744177664)"
    by (simp add: f64_of_real_eqI [where e = "6" and k = "7050948166601933" and r = "7050948166601933 / 70368744177664"]
        rint_def Let_def power_int_minus f64_sub_def)
  have a3: "f64_of_real (7033355980557517 / 35184372088832) = Fin (7033355980557517 / 35184372088832)"
    by (simp add: f64_of_real_eqI [where e = "7" and k = "7033355980557517" and r = "7033355980557517 / 35184372088832"]
        rint_def Let_def power_int_minus f64_sub_def)
  have a4: "f64_add (Fin 0) (Fin 100) = Fin 100"
    by (simp add: f64_of_real_eqI [where e = "6" and k = "7036874417766400" and r = "100"]
        rint_def Let_def power_int_minus f64_sub_def)
  have a5: "f64_add (Fin 100) (Fin (7050948166601933 / 70368744177664)) = Fin (3521955646092083 / 17592186044416)"
    by (simp add: f64_of_real_eqI [where e = "7" and k = "7043911292184166" and r = "3521955646092083 / 17592186044416"]
        rint_def Let_def power_int_minus f64_sub_def)
  have a6: "f64_add (Fin (3521955646092083 / 17592186044416)) (Fin (7050948166601933 / 70368744177664)) = Fin (2642346343871283 / 8796093022208)"
    by (simp add: f64_of_real_eqI [where e = "8" and k = "5284692687742566" and r = "2642346343871283 / 8796093022208"]
        rint_def Let_def power_int_minus f64_sub_def)
  have a7: "f64_add (Fin (2642346343871283 / 8796093022208)) (Fin (7033355980557517 / 35184372088832)) = Fin (2200342669505331 / 4398046511104)"
    by (simp add: f64_of_real_eqI [where e = "8" and k = "8801370678021324" and r = "2200342669505331 / 4398046511104"]
        rint_def Let_def power_int_minus f64_sub_def)
  have a8: "f64_add (Fin 0) (Fin (2200342669505331 / 4398046511104)) = Fin (2200342669505331 / 4398046511104)"
    by (simp add: f64_of_real_eqI [where e = "8" and k = "8801370678021324" and r = "2200342669505331 / 4398046511104"]
        rint_def Let_def power_int_minus f64_sub_def)
  have a9: "f64_of_real 4 = Fin 4"
    by (simp add: f64_of_real_eqI [where e = "2" and k = "4503599627370496" and r = "4"]
        rint_def Let_def power_int_minus f64_sub_def)
  have a10: "f64_div (Fin (2200342669505331 / 4398046511104)) (Fin 4) = Fin (2200342669505331 / 17592186044416)"
    by (simp add: f64_of_real_eqI [where e = "6" and k = "8801370678021324" and r = "2200342669505331 / 17592186044416"]
        rint_def Let_def power_int_minus f64_sub_def)
  have a11: "f64_mul (Fin (2200342669505331 / 17592186044416)) (Fin 100) = Fin (6876070842204159 / 549755813888)"
    by (simp add: f64_of_real_eqI [where e = "13" and k = "6876070842204159" and r = "6876070842204159 / 549755813888"]
        rint_def Let_def power_int_minus f64_sub_def)
  have a12: "f64_div (Fin 12507) (Fin 100) = Fin (2200254708575109 / 17592186044416)"
    by (simp add: f64_of_real_eqI [where e = "6" and k = "8801018834300436" and r = "2200254708575109 / 17592186044416"]
        rint_def Let_def power_int_minus f64_sub_def)
  have a13: "f64_of_real 95 = Fin 95"
    by (simp add: f64_of_real_eqI [where e = "6" and k = "6685030696878080" and r = "95"]
        rint_def Let_def power_int_minus f64_sub_def)
  have a14: "f64_div (Fin 95) (Fin 100) = Fin (4278419646001971 / 4503599627370496)"
    by (simp add: f64_of_real_eqI [where e = "- 1" and k = "8556839292003942" and r = "4278419646001971 / 4503599627370496"]
        rint_def Let_def power_int_minus f64_sub_def)
  have a15: "f64_of_real 3 = Fin 3"
    by (simp add: f64_of_real_eqI [where e = "1" and k = "6755399441055744" and r = "3"]
        rint_def Let_def power_int_minus f64_sub_def)
  have a16: "f64_mul (Fin 3) (Fin (4278419646001971 / 4503599627370496)) = Fin (1604407367250739 / 562949953421312)"
    by (simp add: f64_of_real_eqI [where e = "1" and k = "6417629469002956" and r = "1604407367250739 / 562949953421312"]
        rint_def Let_def power_int_minus f64_sub_def)
  have a17: "f64_sub (Fin (1604407367250739 / 562949953421312)) (Fin 2) = Fin (478507460408115 / 562949953421312)"
    by (simp add: f64_of_real_eqI [where e = "- 1" and k = "7656119366529840" and r = "478507460408115 / 562949953421312"]
        rint_def Let_def power_int_minus f64_sub_def)
  have a18: "f64_sub (Fin (7033355980557517 / 35184372088832)) (Fin (7050948166601933 / 70368744177664)) = Fin (7015763794513101 / 70368744177664)"
    by (simp add: f64_of_real_eqI [where e = "6" and k = "7015763794513101" and r = "7015763794513101 / 70368744177664"]
        rint_def Let_def power_int_minus f64_sub_def)
  have a19: "f64_sub (Fin 1) (Fin (478507460408115 / 562949953421312)) = Fin (84442493013197 / 562949953421312)"
    by (simp add: f64_of_real_eqI [where e = "- 3" and k = "5404319552844608" and r = "84442493013197 / 562949953421312"]
        rint_def Let_def power_int_minus f64_sub_def)
  have a20: "f64_mul (Fin (7015763794513101 / 70368744177664)) (Fin (84442493013197 / 562949953421312)) = Fin (8418916553415741 / 562949953421312)"
    by (simp add: f64_of_real_eqI [where e = "3" and k = "8418916553415741" and r = "8418916553415741 / 562949953421312"]
        rint_def Let_def power_int_minus f64_sub_def)
  have a21: "f64_sub (Fin (7033355980557517 / 35184372088832)) (Fin (8418916553415741 / 562949953421312)) = Fin (6507173695969033 / 35184372088832)"
    by (simp add: f64_of_real_eqI [where e = "7" and k = "6507173695969033" and r = "6507173695969033 / 35184372088832"]
        rint_def Let_def power_int_minus f64_sub_def)
  have a22: "f64_mul (Fin (6507173695969033 / 35184372088832)) (Fin 100) = Fin (5083729449975807 / 274877906944)"
    by (simp add: f64_of_real_eqI [where e = "14" and k = "5083729449975807" and r = "5083729449975807 / 274877906944"]
        rint_def Let_def power_int_minus f64_sub_def)
  have a23: "f64_div (Fin 18494) (Fin 100) = Fin (3253498887054295 / 17592186044416)"
    by (simp add: f64_of_real_eqI [where e = "7" and k = "6506997774108590" and r = "3253498887054295 / 17592186044416"]
        rint_def Let_def power_int_minus f64_sub_def)
  have a24: "f64_of_real 1 = Fin 1"
    by (simp add: f64_of_real_eqI [where e = "0" and k = "4503599627370496" and r = "1"]
        rint_def Let_def power_int_minus f64_sub_def)
  have a25: "f64_add (Fin 0) (Fin 1) = Fin 1"
    by (simp add: f64_of_real_eqI [where e = "0" and k = "4503599627370496" and r = "1"]
        rint_def Let_def power_int_minus f64_sub_def)
  have a26: "f64_add (Fin 1) (Fin 1) = Fin 2"
    by (simp add: f64_of_real_eqI [where e = "1" and k = "4503599627370496" and r = "2"]
        rint_def Let_def power_int_minus f64_sub_def)
  have a27: "f64_add (Fin 2) (Fin 1) = Fin 3"
    by (simp add: f64_of_real_eqI [where e = "1" and k = "6755399441055744" and r = "3"]
        rint_def Let_def power_int_minus f64_sub_def)
  have a28: "f64_add (Fin 3) (Fin 1) = Fin 4"
    by (simp add: f64_of_real_eqI [where e = "2" and k = "4503599627370496" and r = "4"]
        rint_def Let_def power_int_minus f64_sub_def)
  have a29: "f64_add (Fin 0) (Fin 4) = Fin 4"
    by (simp add: f64_of_real_eqI [where e = "2" and k = "4503599627370496" and r = "4"]
        rint_def Let_def power_int_minus f64_sub_def)
  have a30: "f64_div (Fin 4) (Fin 4) = Fin 1"
    by (simp add: f64_of_real_eqI [where e = "0" and k = "4503599627370496" and r = "1"]
        rint_def Let_def power_int_minus f64_sub_def)
  have a31: "f64_mul (Fin 1) (Fin 100) = Fin 100"
    by (simp add: f64_of_real_eqI [where e = "6" and k = "7036874417766400" and r = "100"]
        rint_def Let_def power_int_minus f64_sub_def)
  have a32: "f64_div (Fin 100) (Fin 100) = Fin 1"
    by (simp add: f64_of_real_eqI [where e = "0" and k = "4503599627370496" and r = "1"]
        rint_def Let_def power_int_minus f64_sub_def)
  show ?thesis
    unfolding j1 j2
    by (simp add: calculate_metrics_def getitem_def np_mean_def array_mean_def np_sum_def np_asarray_def
        pairwise_sum_short np_percentile_def lerp_def round_float64_def Let_def rint_def
        less_eq_f64_def f64_ge_def a1 a2 a3 a4 a5 a6 a7 a8 a9 a10 a11 a12 a13 a14 a15 a16 a17 a18 a19 a20 a21 a22 a23 a24 a25 a26 a27 a28 a29 a30 a31 a32
        del: f64_add.simps f64_mul.simps f64_div.simps)
qed

lemma order_example_backward:
  "calculate_metrics
     [[''latency_ms'' \<mapsto> json_float (1999 / 10), ''uptime'' \<mapsto> 1],
      [''latency_ms'' \<mapsto> json_float (1002 / 10), ''uptime'' \<mapsto> 1],
      [''latency_ms'' \<mapsto> json_float (1002 / 10), ''uptime'' \<mapsto> 1],
      [''latency_ms'' \<mapsto> 100, ''uptime'' \<mapsto> 1]] 180
   = Inr \<lparr>avg_latency = Fin (8801722521742213 / 70368744177664), p95_latency = Fin (3253498887054295 / 17592186044416), avg_uptime = Fin 1, breaches = 1\<rparr>"
proof -
  have j1: "json_float (1999 / 10) = 7033355980557517 / 35184372088832"
    unfolding json_float_def
    by (rule nearest_eqI [where e = "7" and k = "7033355980557517"])
       (simp_all add: rint_def Let_def power_int_minus)
  have j2: "json_float (1002 / 10) = 7050948166601933 / 70368744177664"
    unfolding json_float_def
    by (rule nearest_eqI [where e = "6" and k = "7050948166601933"])
       (simp_all add: rint_def Let_def power_int_minus)
  have a1: "f64_of_real (7033355980557517 / 35184372088832) = Fin (7033355980557517 / 35184372088832)"
    by (simp add: f64_of_real_eqI [where e = "7" and k = "7033355980557517" and r = "7033355980557517 / 35184372088832"]
        rint_def Let_def power_int_minus f64_sub_def)
  have a2: "f64_of_real (7050948166601933 / 70368744177664) = Fin (7050948166601933 / 70368744177664)"
    by (simp add: f64_of_real_eqI [where e = "6" and k = "7050948166601933" and r = "7050948166601933 / 70368744177664"]
        rint_def Let_def power_int_minus f64_sub_def)
  have a3: "f64_of_real 100 = Fin 100"
    by (simp add: f64_of_real_eqI [where e = "6" and k = "7036874417766400" and r = "100"]
        rint_def Let_def power_int_minus f64_sub_def)
  have a4: "f64_add (Fin 0) (Fin (7033355980557517 / 35184372088832)) = Fin (7033355980557517 / 35184372088832)"
    by (simp add: f64_of_real_eqI [where e = "7" and k = "7033355980557517" and r = "7033355980557517 / 35184372088832"]
        rint_def Let_def power_int_minus f64_sub_def)
  have a5: "f64_add (Fin (7033355980557517 / 35184372088832)) (Fin (7050948166601933 / 70368744177664)) = Fin (2639707515964621 / 8796093022208)"
    by (simp add: f64_of_real_eqI [where e = "8" and k = "5279415031929242" and r = "2639707515964621 / 8796093022208"]
        rint_def Let_def power_int_minus f64_sub_def)
  have a6: "f64_add (Fin (2639707515964621 / 8796093022208)) (Fin (7050948166601933 / 70368744177664)) = Fin (7042152073579725 / 17592186044416)"
    by (simp add: f64_of_real_eqI [where e = "8" and k = "7042152073579725" and r = "7042152073579725 / 17592186044416"]
        rint_def Let_def power_int_minus f64_sub_def)
  have a7: "f64_add (Fin (7042152073579725 / 17592186044416)) (Fin 100) = Fin (8801370678021325 / 17592186044416)"
    by (simp add: f64_of_real_eqI [where e = "8" and k = "8801370678021325" and r = "8801370678021325 / 17592186044416"]
        rint_def Let_def power_int_minus f64_sub_def)
  have a8: "f64_add (Fin 0) (Fin (8801370678021325 / 17592186044416)) = Fin (8801370678021325 / 17592186044416)"
    by (simp add: f64_of_real_eqI [where e = "8" and k = "8801370678021325" and r = "8801370678021325 / 17592186044416"]
        rint_def Let_def power_int_minus f64_sub_def)
  have a9: "f64_of_real 4 = Fin 4"
    by (simp add: f64_of_real_eqI [where e = "2" and k = "4503599627370496" and r = "4"]
        rint_def Let_def power_int_minus f64_sub_def)
  have a10: "f64_div (Fin (8801370678021325 / 17592186044416)) (Fin 4) = Fin (8801370678021325 / 70368744177664)"
    by (simp add: f64_of_real_eqI [where e = "6" and k = "8801370678021325" and r = "8801370678021325 / 70368744177664"]
        rint_def Let_def power_int_minus f64_sub_def)
  have a11: "f64_mul (Fin (8801370678021325 / 70368744177664)) (Fin 100) = Fin (25015 / 2)"
    by (simp add: f64_of_real_eqI [where e = "13" and k = "6876070842204160" and r = "25015 / 2"]
        rint_def Let_def power_int_minus f64_sub_def)
  have a12: "f64_div (Fin 12508) (Fin 100) = Fin (8801722521742213 / 70368744177664)"
    by (simp add: f64_of_real_eqI [where e = "6" and k = "8801722521742213" and r = "8801722521742213 / 70368744177664"]
        rint_def Let_def power_int_minus f64_sub_def)
  have a13: "f64_of_real 95 = Fin 95"
    by (simp add: f64_of_real_eqI [where e = "6" and k = "6685030696878080" and r = "95"]
        rint_def Let_def power_int_minus f64_sub_def)
  have a14: "f64_div (Fin 95) (Fin 100) = Fin (4278419646001971 / 4503599627370496)"
    by (simp add: f64_of_real_eqI [where e = "- 1" and k = "8556839292003942" and r = "4278419646001971 / 4503599627370496"]
        rint_def Let_def power_int_minus f64_sub_def)
  have a15: "f64_of_real 3 = Fin 3"
    by (simp add: f64_of_real_eqI [where e = "1" and k = "6755399441055744" and r = "3"]
        rint_def Let_def power_int_minus f64_sub_def)
  have a16: "f64_mul (Fin 3) (Fin (4278419646001971 / 4503599627370496)) = Fin (1604407367250739 / 562949953421312)"
    by (simp add: f64_of_real_eqI [where e = "1" and k = "6417629469002956" and r = "1604407367250739 / 562949953421312"]
        rint_def Let_def power_int_minus f64_sub_def)
  have a17: "f64_sub (Fin (1604407367250739 / 562949953421312)) (Fin 2) = Fin (478507460408115 / 562949953421312)"
    by (simp add: f64_of_real_eqI [where e = "- 1" and k = "7656119366529840" and r = "478507460408115 / 562949953421312"]
        rint_def Let_def power_int_minus f64_sub_def)
  have a18: "f64_sub (Fin (7033355980557517 / 35184372088832)) (Fin (7050948166601933 / 70368744177664)) = Fin (7015763794513101 / 70368744177664)"
    by (simp add: f64_of_real_eqI [where e = "6" and k = "7015763794513101" and r = "7015763794513101 / 70368744177664"]
        rint_def Let_def power_int_minus f64_sub_def)
  have a19: "f64_sub (Fin 1) (Fin (478507460408115 / 562949953421312)) = Fin (84442493013197 / 562949953421312)"
    by (simp add: f64_of_real_eqI [where e = "- 3" and k = "5404319552844608" and r = "84442493013197 / 562949953421312"]
        rint_def Let_def power_int_minus f64_sub_def)
  have a20: "f64_mul (Fin (7015763794513101 / 70368744177664)) (Fin (84442493013197 / 562949953421312)) = Fin (8418916553415741 / 562949953421312)"
    by (simp add: f64_of_real_eqI [where e = "3" and k = "8418916553415741" and r = "8418916553415741 / 562949953421312"]
        rint_def Let_def power_int_minus f64_sub_def)
  have a21: "f64_sub (Fin (7033355980557517 / 35184372088832)) (Fin (8418916553415741 / 562949953421312)) = Fin (6507173695969033 / 35184372088832)"
    by (simp add: f64_of_real_eqI [where e = "7" and k = "6507173695969033" and r = "6507173695969033 / 35184372088832"]
        rint_def Let_def power_int_minus f64_sub_def)
  have a22: "f64_mul (Fin (6507173695969033 / 35184372088832)) (Fin 100) = Fin (5083729449975807 / 274877906944)"
    by (simp add: f64_of_real_eqI [where e = "14" and k = "5083729449975807" and r = "5083729449975807 / 274877906944"]
        rint_def Let_def power_int_minus f64_sub_def)
  have a23: "f64_div (Fin 18494) (Fin 100) = Fin (3253498887054295 / 17592186044416)"
    by (simp add: f64_of_real_eqI [where e = "7" and k = "6506997774108590" and r = "3253498887054295 / 17592186044416"]
        rint_def Let_def power_int_minus f64_sub_def)
  have a24: "f64_of_real 1 = Fin 1"
    by (simp add: f64_of_real_eqI [where e = "0" and k = "4503599627370496" and r = "1"]
        rint_def Let_def power_int_minus f64_sub_def)
  have a25: "f64_add (Fin 0) (Fin 1) = Fin 1"
    by (simp add: f64_of_real_eqI [where e = "0" and k = "4503599627370496" and r = "1"]
        rint_def Let_def power_int_minus f64_sub_def)
  have a26: "f64_add (Fin 1) (Fin 1) = Fin 2"
    by (simp add: f64_of_real_eqI [where e = "1" and k = "4503599627370496" and r = "2"]
        rint_def Let_def power_int_minus f64_sub_def)
  have a27: "f64_add (Fin 2) (Fin 1) = Fin 3"
    by (simp add: f64_of_real_eqI [where e = "1" and k = "6755399441055744" and r = "3"]
        rint_def Let_def power_int_minus f64_sub_def)
  have a28: "f64_add (Fin 3) (Fin 1) = Fin 4"
    by (simp add: f64_of_real_eqI [where e = "2" and k = "4503599627370496" and r = "4"]
        rint_def Let_def power_int_minus f64_sub_def)
  have a29: "f64_add (Fin 0) (Fin 4) = Fin 4"
    by (simp add: f64_of_real_eqI [where e = "2" and k = "4503599627370496" and r = "4"]
        rint_def Let_def power_int_minus f64_sub_def)
  have a30: "f64_div (Fin 4) (Fin 4) = Fin 1"
    by (simp add: f64_of_real_eqI [where e = "0" and k = "4503599627370496" and r = "1"]
        rint_def Let_def power_int_minus f64_sub_def)
  have a31: "f64_mul (Fin 1) (Fin 100) = Fin 100"
    by (simp add: f64_of_real_eqI [where e = "6" and k = "7036874417766400" and r = "100"]
        rint_def Let_def power_int_minus f64_sub_def)
  have a32: "f64_div (Fin 100) (Fin 100) = Fin 1"
    by (simp add: f64_of_real_eqI [where e = "0" and k = "4503599627370496" and r = "1"]
        rint_def Let_def power_int_minus f64_sub_def)
  show ?thesis
    unfolding j1 j2
    by (simp add: calculate_metrics_def getitem_def np_mean_def array_mean_def np_sum_def np_asarray_def
        pairwise_sum_short np_percentile_def lerp_def round_float64_def Let_def rint_def
        less_eq_f64_def f64_ge_def a1 a2 a3 a4 a5 a6 a7 a8 a9 a10 a11 a12 a13 a14 a15 a16 a17 a18 a19 a20 a21 a22 a23 a24 a25 a26 a27 a28 a29 a30 a31 a32
        del: f64_add.simps f64_mul.simps f64_div.simps)
qed

text \<open>
  C9, as stated: on every permutation of a list of samples \<open>calculate_metrics\<close> returns the
  same metrics. The float64 sum inside \<^verbatim>\<open>np.mean\<close> depends on the order of its
  additions: the four latencies \<open>100.0\<close>, \<open>100.2\<close>, \<open>100.2\<close>, \<open>199.9\<close> have the float64 mean
  \<open>125.07499999999999\<close> in this order and \<open>125.075\<close> in the reverse order, and the results
  have \<open>avg_latency\<close> \<open>125.07\<close> and \<open>125.08\<close>.
\<close>

theorem order_dependence_counterexample:
  "mset [[''latency_ms'' \<mapsto> json_float (1999 / 10), ''uptime'' \<mapsto> 1],
      [''latency_ms'' \<mapsto> json_float (1002 / 10), ''uptime'' \<mapsto> 1],
      [''latency_ms'' \<mapsto> json_float (1002 / 10), ''uptime'' \<mapsto> 1],
      [''latency_ms'' \<mapsto> 100, ''uptime'' \<mapsto> 1]]
   = mset [[''latency_ms'' \<mapsto> 100, ''uptime'' \<mapsto> 1],
      [''latency_ms'' \<mapsto> json_float (1002 / 10), ''uptime'' \<mapsto> 1],
      [''latency_ms'' \<mapsto> json_float (1002 / 10), ''uptime'' \<mapsto> 1],
      [''latency_ms'' \<mapsto> json_float (1999 / 10), ''uptime'' \<mapsto> 1]]
   \<and> calculate_metrics
       [[''latency_ms'' \<mapsto> 100, ''uptime'' \<mapsto> 1],
      [''latency_ms'' \<mapsto> json_float (1002 / 10), ''uptime'' \<mapsto> 1],
      [''latency_ms'' \<mapsto> json_float (1002 / 10), ''uptime'' \<mapsto> 1],
      [''latency_ms'' \<mapsto> json_float (1999 / 10), ''uptime'' \<mapsto> 1]] 180
     = Inr \<lparr>avg_latency = Fin (2200254708575109 / 17592186044416), p95_latency = Fin (3253498887054295 / 17592186044416), avg_uptime = Fin 1, breaches = 1\<rparr>
   \<and> calculate_metrics
       [[''latency_ms'' \<mapsto> json_float (1999 / 10), ''uptime'' \<mapsto> 1],
      [''latency_ms'' \<mapsto> json_float (1002 / 10), ''uptime'' \<mapsto> 1],
      [''latency_ms'' \<mapsto> json_float (1002 / 10), ''uptime'' \<mapsto> 1],
      [''latency_ms'' \<mapsto> 100, ''uptime'' \<mapsto> 1]] 180
     = Inr \<lparr>avg_latency = Fin (8801722521742213 / 70368744177664), p95_latency = Fin (3253498887054295 / 17592186044416), avg_uptime = Fin 1, breaches = 1\<rparr>
   \<and> calculate_metrics
       [[''latency_ms'' \<mapsto> json_float (1999 / 10), ''uptime'' \<mapsto> 1],
      [''latency_ms'' \<mapsto> json_float (1002 / 10), ''uptime'' \<mapsto> 1],
      [''latency_ms'' \<mapsto> json_float (1002 / 10), ''uptime'' \<mapsto> 1],
      [''latency_ms'' \<mapsto> 100, ''uptime'' \<mapsto> 1]] 180
     \<noteq> calculate_metrics
       [[''latency_ms'' \<mapsto> 100, ''uptime'' \<mapsto> 1],
      [''latency_ms'' \<mapsto> json_float (1002 / 10), ''uptime'' \<mapsto> 1],
      [''latency_ms'' \<mapsto> json_float (1002 / 10), ''uptime'' \<mapsto> 1],
      [''latency_ms'' \<mapsto> json_float (1999 / 10), ''uptime'' \<mapsto> 1]] 180"
  unfolding order_example_forward order_example_backward
  by simp

lemma np_mean_returns:
  "a \<noteq> [] \<Longrightarrow> \<exists>v. np_mean a = Inr v"
  by (simp add: np_mean_def)

lemma np_percentile_mset:
  assumes "mset xs = mset ys"
  shows "np_percentile xs q = np_percentile ys q"
proof -
  from assms have "mset (np_asarray xs) = mset (np_asarray ys)"
    by (simp add: np_asarray_def)
  then have "mset (sort (np_asarray ys)) = mset (np_asarray xs)" by simp
  then have "sort (np_asarray xs) = sort (np_asarray ys)"
    by (rule properties_for_sort) simp
  moreover from assms have "xs = [] \<longleftrightarrow> ys = []"
    by (metis mset_zero_iff)
  ultimately show ?thesis
    by (simp add: np_percentile_def)
qed

lemma breach_count_mset:
  assumes "mset xs = mset ys"
  shows "(\<Sum>lat \<leftarrow> filter (\<lambda>lat. threshold < lat) xs. (1::int))
       = (\<Sum>lat \<leftarrow> filter (\<lambda>lat. threshold < lat) ys. 1)"
proof -
  from assms have "mset (filter (\<lambda>lat. threshold < lat) xs) = mset (filter (\<lambda>lat. threshold < lat) ys)"
    by simp
  then have "length (filter (\<lambda>lat. threshold < lat) xs) = length (filter (\<lambda>lat. threshold < lat) ys)"
    by (rule mset_eq_length)
  then show ?thesis by (simp add: count_ones)
qed

lemma field_values_mset:
  assumes "mset data' = mset data"
  shows "(\<exists>e. field_values key data' = Inl e \<and> field_values key data = Inl e)
       \<or> (\<exists>vs' vs. field_values key data' = Inr vs' \<and> field_values key data = Inr vs
             \<and> mset vs' = mset vs)"
proof (cases "\<forall>r \<in> set data. r key \<noteq> None")
  case True
  moreover from assms have s: "set data' = set data" by (rule mset_eq_setD)
  ultimately have "\<forall>r \<in> set data'. r key \<noteq> None" by simp
  then have "field_values key data' = Inr (map (\<lambda>r. the (r key)) data')"
    by (rule field_values_present)
  moreover from True have "field_values key data = Inr (map (\<lambda>r. the (r key)) data)"
    by (rule field_values_present)
  moreover from assms have "mset (map (\<lambda>r. the (r key)) data') = mset (map (\<lambda>r. the (r key)) data)"
    by simp
  ultimately show ?thesis by blast
next
  case False
  then have m: "\<exists>r \<in> set data. r key = None" by simp
  moreover from assms have "set data' = set data" by (rule mset_eq_setD)
  ultimately have "\<exists>r \<in> set data'. r key = None" by simp
  then have "field_values key data' = Inl (KeyError key)"
    by (rule field_values_missing)
  moreover from m have "field_values key data = Inl (KeyError key)"
    by (rule field_values_missing)
  ultimately show ?thesis by blast
qed

text \<open>
  C9, amended: for every list of samples, every permutation of it and every threshold,
  \<open>calculate_metrics\<close> fails with the same error on both or returns on both, with the same
  \<open>p95_latency\<close> and the same \<open>breaches\<close>; \<open>avg_latency\<close> and \<open>avg_uptime\<close> can differ with
  the order of the samples.
\<close>

theorem calculate_metrics_permutation:
  assumes "mset data' = mset data"
  shows "(\<exists>e. calculate_metrics data' threshold = Inl e \<and> calculate_metrics data threshold = Inl e)
    \<or> (\<exists>m' m. calculate_metrics data' threshold = Inr m' \<and> calculate_metrics data threshold = Inr m
          \<and> p95_latency m' = p95_latency m \<and> breaches m' = breaches m)"
proof (cases "data = []")
  case True
  with assms have "data' = []" by simp
  with True show ?thesis by (simp add: calculate_metrics_def)
next
  case False
  with assms have ne: "data' \<noteq> []" by auto
  from field_values_mset [OF assms, of "''latency_ms''"]
  show ?thesis
  proof (elim disjE exE conjE)
    fix err assume "field_values ''latency_ms'' data' = Inl err"
      and "field_values ''latency_ms'' data = Inl err"
    then show ?thesis using False ne by (simp add: calculate_metrics_def)
  next
    fix ls' ls
    assume l: "field_values ''latency_ms'' data' = Inr ls'"
      "field_values ''latency_ms'' data = Inr ls" and ml: "mset ls' = mset ls"
    from field_values_mset [OF assms, of "''uptime''"]
    show ?thesis
    proof (elim disjE exE conjE)
      fix err assume "field_values ''uptime'' data' = Inl err"
        and "field_values ''uptime'' data = Inl err"
      with l show ?thesis using False ne by (simp add: calculate_metrics_def)
    next
      fix us' us
      assume u: "field_values ''uptime'' data' = Inr us'"
        "field_values ''uptime'' data = Inr us" and mu: "mset us' = mset us"
      from False l have lne: "ls \<noteq> []" by (cases data) (auto split: sum.splits)
      with ml have lne': "ls' \<noteq> []" by auto
      from False u have une: "us \<noteq> []" by (cases data) (auto split: sum.splits)
      with mu have une': "us' \<noteq> []" by auto
      obtain a a' where a: "np_mean ls = Inr a" "np_mean ls' = Inr a'"
        using np_mean_returns [OF lne] np_mean_returns [OF lne'] by blast
      obtain b b' where b: "np_mean us = Inr b" "np_mean us' = Inr b'"
        using np_mean_returns [OF une] np_mean_returns [OF une'] by blast
      obtain p where p: "np_percentile ls 95 = Inr p"
        using np_percentile_95_returns [OF lne] by blast
      have p': "np_percentile ls' 95 = Inr p"
        using np_percentile_mset [OF ml, of 95] p by simp
      have q: "(\<Sum>lat \<leftarrow> filter (\<lambda>lat. threshold < lat) ls'. (1::int))
          = (\<Sum>lat \<leftarrow> filter (\<lambda>lat. threshold < lat) ls. 1)"
        using ml by (rule breach_count_mset)
      show ?thesis
        using False ne l u a b p p' q by (simp add: calculate_metrics_def)
    qed
  qed
qed

theorem calculate_metrics_permutation_witness:
  "mset (rev example_samples) = mset example_samples
   \<and> ((\<exists>e. calculate_metrics (rev example_samples) 140 = Inl e
          \<and> calculate_metrics example_samples 140 = Inl e)
      \<or> (\<exists>m' m. calculate_metrics (rev example_samples) 140 = Inr m'
          \<and> calculate_metrics example_samples 140 = Inr m
          \<and> p95_latency m' = p95_latency m \<and> breaches m' = breaches m))"
proof -
  have h: "mset (rev example_samples) = mset example_samples" by simp
  from h calculate_metrics_permutation [OF h, of 140] show ?thesis
    by (intro conjI)
qed

end
